theory Spec2Isabelle
  imports Main "HOL-Library.AList" "HOL-Library.Word"
begin

section \<open>Python values and the library calls the module makes\<close>

text \<open>
  The records handled by \<^verbatim>\<open>image_disk_utils.py\<close> are decoded JSON: nested
  dictionaries with string keys, lists, strings, integers, booleans and \<^verbatim>\<open>None\<close>.
  The module reads them with \<^verbatim>\<open>.get\<close>, so a value of the wrong shape raises, and the
  model keeps the values untyped as the code does. Strings are ASCII text; floating point
  numbers are left out.
\<close>

datatype pyval =
    PNone
  | PBool bool
  | PInt int
  | PStr string
  | PList "pyval list"
  | PDict "(string \<times> pyval) list"

text \<open>The exceptions that can arise, named after the Python classes.\<close>

datatype exn =
    AttributeError
  | TypeError
  | KeyError
  | ValueError
  | DecodeError
  | ImageDecodeError
  | WriteError
  | OSError

type_synonym bytes = "8 word list"

text \<open>Python truthiness, as \<^verbatim>\<open>not x\<close> tests it.\<close>

fun truthy :: "pyval \<Rightarrow> bool" where
  "truthy PNone = False"
| "truthy (PBool b) = b"
| "truthy (PInt i) = (i \<noteq> 0)"
| "truthy (PStr s) = (s \<noteq> [])"
| "truthy (PList xs) = (xs \<noteq> [])"
| "truthy (PDict d) = (d \<noteq> [])"

text \<open>\<^verbatim>\<open>x.get(k, default)\<close>: only a dictionary has the method.\<close>

fun dict_get :: "pyval \<Rightarrow> string \<Rightarrow> pyval \<Rightarrow> exn + pyval" where
  "dict_get (PDict d) k dflt = Inr (case map_of d k of None \<Rightarrow> dflt | Some v \<Rightarrow> v)"
| "dict_get _ k dflt = Inl AttributeError"

text \<open>Iterating a value (\<^verbatim>\<open>for x in v\<close>, \<^verbatim>\<open>enumerate(v)\<close>): a list gives its
  elements, a string its characters, a dictionary its keys; the other values are not
  iterable.\<close>

fun py_iter :: "pyval \<Rightarrow> exn + pyval list" where
  "py_iter (PList xs) = Inr xs"
| "py_iter (PStr s) = Inr (map (\<lambda>c. PStr [c]) s)"
| "py_iter (PDict d) = Inr (map (\<lambda>kv. PStr (fst kv)) d)"
| "py_iter _ = Inl TypeError"

definition ebind :: "'e + 'a \<Rightarrow> ('a \<Rightarrow> 'e + 'b) \<Rightarrow> 'e + 'b" where
  "ebind m f = (case m of Inl e \<Rightarrow> Inl e | Inr v \<Rightarrow> f v)"

subsection \<open>Strings and paths\<close>

text \<open>Decimal digits, as \<^verbatim>\<open>str()\<close> and an f-string write an integer.\<close>

definition digit_char :: "nat \<Rightarrow> char" where
  "digit_char n = ''0123456789'' ! (n mod 10)"

fun string_of_nat :: "nat \<Rightarrow> string" where
  "string_of_nat n =
     (if n < 10 then [digit_char n]
      else string_of_nat (n div 10) @ [digit_char (n mod 10)])"

declare string_of_nat.simps [simp del]

definition string_of_int :: "int \<Rightarrow> string" where
  "string_of_int i = (if i < 0 then CHR ''-'' # string_of_nat (nat (- i)) else string_of_nat (nat i))"

text \<open>\<^verbatim>\<open>str.lower\<close> and \<^verbatim>\<open>str.upper\<close> on ASCII text: the letters change case, every
  other character stays.\<close>

definition lower_char :: "char \<Rightarrow> char" where
  "lower_char c =
     (case map_of (zip ''ABCDEFGHIJKLMNOPQRSTUVWXYZ'' ''abcdefghijklmnopqrstuvwxyz'') c of
        None \<Rightarrow> c
      | Some l \<Rightarrow> l)"

definition upper_char :: "char \<Rightarrow> char" where
  "upper_char c =
     (case map_of (zip ''abcdefghijklmnopqrstuvwxyz'' ''ABCDEFGHIJKLMNOPQRSTUVWXYZ'') c of
        None \<Rightarrow> c
      | Some u \<Rightarrow> u)"

text \<open>\<^verbatim>\<open>x.lower()\<close>: only a string has the method.\<close>

fun str_lower :: "pyval \<Rightarrow> exn + string" where
  "str_lower (PStr s) = Inr (map lower_char s)"
| "str_lower _ = Inl AttributeError"

definition str_upper :: "string \<Rightarrow> string" where
  "str_upper s = map upper_char s"

text \<open>\<^verbatim>\<open>os.path.basename\<close> (POSIX): what follows the last slash.\<close>

definition basename :: "string \<Rightarrow> string" where
  "basename p = rev (takeWhile (\<lambda>c. c \<noteq> CHR ''/'') (rev p))"

fun os_path_basename :: "pyval \<Rightarrow> exn + string" where
  "os_path_basename (PStr p) = Inr (basename p)"
| "os_path_basename _ = Inl TypeError"

text \<open>\<^verbatim>\<open>os.path.join(a, b)\<close> (POSIX), two components.\<close>

definition path_join :: "string \<Rightarrow> string \<Rightarrow> string" where
  "path_join a b =
     (if take 1 b = ''/'' then b
      else if a = [] \<or> last a = CHR ''/'' then a @ b
      else a @ ''/'' @ b)"

fun os_path_join :: "string \<Rightarrow> pyval \<Rightarrow> exn + string" where
  "os_path_join a (PStr b) = Inr (path_join a b)"
| "os_path_join a _ = Inl TypeError"

subsection \<open>The environment: sanitiser, base64, imaging library, file system\<close>

text \<open>
  The calls that leave the module are parameters of the model, so that every theorem holds
  whatever they do. \<^verbatim>\<open>get_valid_filename\<close> lives in
  \<^verbatim>\<open>nv_ingest_client.client.util.processing\<close>; \<^verbatim>\<open>base64.b64decode\<close>,
  \<^verbatim>\<open>Image.open\<close>, \<^verbatim>\<open>Image.save\<close> and \<^verbatim>\<open>os.makedirs\<close> are library calls. A call
  that can raise returns \<open>None\<close> or \<open>False\<close> then. The two calls that touch the disk take
  the file system and return it, changed or not, with their outcome.
  \<open>format_value\<close> is \<^verbatim>\<open>str()\<close> of a list or dictionary inside an f-string.
\<close>

record ('fs, 'img) env =
  get_valid_filename :: "string \<Rightarrow> string option"
  b64decode :: "string \<Rightarrow> bytes option"
  image_open :: "bytes \<Rightarrow> 'img option"
  image_save :: "'img \<Rightarrow> string \<Rightarrow> string \<Rightarrow> 'fs \<Rightarrow> bool \<times> 'fs"
  makedirs :: "string \<Rightarrow> 'fs \<Rightarrow> bool \<times> 'fs"
  format_value :: "pyval \<Rightarrow> string"

text \<open>What an f-string writes for a value.\<close>

fun py_str :: "('fs, 'img) env \<Rightarrow> pyval \<Rightarrow> string" where
  "py_str env PNone = ''None''"
| "py_str env (PBool b) = (if b then ''True'' else ''False'')"
| "py_str env (PInt i) = string_of_int i"
| "py_str env (PStr s) = s"
| "py_str env v = format_value env v"

text \<open>\<^verbatim>\<open>base64.b64decode(x)\<close>: a value that is not a string is a type error.\<close>

fun b64decode_val :: "('fs, 'img) env \<Rightarrow> pyval \<Rightarrow> exn + bytes" where
  "b64decode_val env (PStr s) = (case b64decode env s of None \<Rightarrow> Inl DecodeError | Some d \<Rightarrow> Inr d)"
| "b64decode_val env _ = Inl TypeError"

section \<open>The exporter: \<^verbatim>\<open>save_images_to_disk\<close>\<close>

record flags =
  save_charts :: bool
  save_tables :: bool
  save_infographics :: bool
  save_page_images :: bool
  save_raw_images :: bool
  count_images :: bool
  organize_by_type :: bool

definition default_flags :: flags where
  "default_flags =
     \<lparr>save_charts = True, save_tables = True, save_infographics = True,
      save_page_images = False, save_raw_images = False, count_images = True,
      organize_by_type = True\<rparr>"

text \<open>One constructor for each logger call of the module, with the values it formats.\<close>

datatype log_event =
    Warning string
  | Error_save string string exn
  | Error_process nat exn
  | Debug_saved string string
  | Info_saved int string
  | Info_category string int
  | Info_none

text \<open>What a call can see outside itself: the log and the file system.\<close>

record 'fs world =
  logs :: "log_event list"
  fs :: 'fs

definition log :: "log_event \<Rightarrow> 'fs world \<Rightarrow> 'fs world" where
  "log ev w = w\<lparr>logs := logs w @ [ev]\<rparr>"

type_synonym counts = "(string \<times> int) list"

definition initial_counts :: counts where
  "initial_counts =
     [(''chart'', 0), (''table'', 0), (''infographic'', 0), (''page_image'', 0),
      (''image'', 0), (''total'', 0)]"

text \<open>\<^verbatim>\<open>image_counts[key] += 1\<close>: a missing key raises, a list or dictionary is not
  hashable.\<close>

fun dict_incr :: "counts \<Rightarrow> pyval \<Rightarrow> exn + counts" where
  "dict_incr cs (PStr k) =
     (case map_of cs k of None \<Rightarrow> Inl KeyError | Some v \<Rightarrow> Inr (AList.update k (v + 1) cs))"
| "dict_incr cs (PList xs) = Inl TypeError"
| "dict_incr cs (PDict d) = Inl TypeError"
| "dict_incr cs _ = Inl KeyError"

text \<open>Lines 112 to 128: the flag \<^verbatim>\<open>should_save\<close> and the subtype, normalised to
  \<^verbatim>\<open>"image"\<close> in the last branch.\<close>

definition filter_subtype :: "flags \<Rightarrow> pyval \<Rightarrow> pyval \<Rightarrow> bool \<times> pyval" where
  "filter_subtype fl doc_type subtype =
     (if subtype = PStr ''chart'' \<and> save_charts fl then (True, subtype)
      else if subtype = PStr ''table'' \<and> save_tables fl then (True, subtype)
      else if subtype = PStr ''infographic'' \<and> save_infographics fl then (True, subtype)
      else if subtype = PStr ''page_image'' \<and> save_page_images fl then (True, subtype)
      else if doc_type = PStr ''image''
              \<and> subtype \<notin> set [PStr ''chart'', PStr ''table'', PStr ''infographic'', PStr ''page_image'']
              \<and> save_raw_images fl then (True, PStr ''image'')
      else (False, subtype))"

text \<open>Lines 95 to 137 end in one of three ways unless they raise: the record has no
  content, the filter excludes it, or it is selected, with the values the rest needs:
  content, clean source name, subtype, page number, image type.\<close>

datatype prepared =
    No_content
  | Excluded
  | Selected pyval string pyval pyval string

definition prepare :: "('fs, 'img) env \<Rightarrow> flags \<Rightarrow> nat \<Rightarrow> pyval \<Rightarrow> exn + prepared" where
  "prepare env fl doc_idx document =
     ebind (dict_get document ''metadata'' (PDict [])) (\<lambda>metadata.
     ebind (dict_get document ''document_type'' (PStr ''unknown'')) (\<lambda>doc_type.
     ebind (dict_get metadata ''content'' PNone) (\<lambda>image_content.
     if \<not> truthy image_content then Inr No_content else
     ebind (dict_get metadata ''source_metadata'' (PDict [])) (\<lambda>source_metadata.
     ebind (dict_get source_metadata ''source_id''
              (PStr (''document_'' @ string_of_nat doc_idx))) (\<lambda>source_id.
     ebind (os_path_basename source_id) (\<lambda>base.
     ebind (case get_valid_filename env base of None \<Rightarrow> Inl ValueError | Some s \<Rightarrow> Inr s)
       (\<lambda>clean_source_name.
     ebind (dict_get metadata ''content_metadata'' (PDict [])) (\<lambda>content_metadata.
     ebind (dict_get content_metadata ''subtype'' (PStr ''image'')) (\<lambda>subtype0.
     ebind (dict_get content_metadata ''page_number'' (PInt 0)) (\<lambda>page_number.
     case filter_subtype fl doc_type subtype0 of (should_save, subtype) \<Rightarrow>
     if \<not> should_save then Inr Excluded else
     ebind (if doc_type = PStr ''image''
            then ebind (dict_get metadata ''image_metadata'' (PDict [])) (\<lambda>image_metadata.
                 ebind (dict_get image_metadata ''image_type'' (PStr ''png'')) str_lower)
            else Inr ''png'') (\<lambda>image_type.
     Inr (Selected image_content clean_source_name subtype page_number image_type))))))))))))"

text \<open>Lines 150 to 166, the inner \<^verbatim>\<open>try\<close>: decode, open, save, count. Its handler
  catches every exception and logs it, so the block returns the counters and the world and
  never raises.\<close>

definition try_save ::
  "('fs, 'img) env \<Rightarrow> pyval \<Rightarrow> string \<Rightarrow> pyval \<Rightarrow> string \<Rightarrow> string \<Rightarrow>
     counts \<times> 'fs world \<Rightarrow> counts \<times> 'fs world" where
  "try_save env image_content clean_source_name subtype image_type image_path s =
     (case s of (image_counts, w) \<Rightarrow>
      let failed = (\<lambda>e. Error_save (py_str env subtype) clean_source_name e) in
      (case b64decode_val env image_content of
        Inl e \<Rightarrow> (image_counts, log (failed e) w)
      | Inr image_data \<Rightarrow>
         (case image_open env image_data of
            None \<Rightarrow> (image_counts, log (failed ImageDecodeError) w)
          | Some img \<Rightarrow>
             let image_ext = (if image_type = ''jpeg'' then ''jpg'' else image_type) in
             (case image_save env img image_path (str_upper image_ext) (fs w) of
                (ok, fs1) \<Rightarrow>
                  let w1 = w\<lparr>fs := fs1\<rparr> in
                  if \<not> ok then (image_counts, log (failed WriteError) w1)
                  else
                   (case dict_incr image_counts subtype of
                      Inl e \<Rightarrow> (image_counts, log (failed e) w1)
                    | Inr counts1 \<Rightarrow>
                       (case dict_incr counts1 (PStr ''total'') of
                          Inl e \<Rightarrow> (counts1, log (failed e) w1)
                        | Inr counts2 \<Rightarrow>
                            (counts2, log (Debug_saved (py_str env subtype) image_path) w1)))))))"

text \<open>Lines 139 to 166 for a selected record: the path, with the subdirectory created on
  demand, then the inner \<^verbatim>\<open>try\<close>. The first component is the exception that leaves
  these lines, if any.\<close>

definition save_item ::
  "('fs, 'img) env \<Rightarrow> flags \<Rightarrow> string \<Rightarrow> nat \<Rightarrow> pyval \<Rightarrow> string \<Rightarrow> pyval \<Rightarrow> pyval \<Rightarrow> string \<Rightarrow>
     counts \<times> 'fs world \<Rightarrow> exn option \<times> counts \<times> 'fs world" where
  "save_item env fl output_directory doc_idx image_content clean_source_name subtype
     page_number image_type s =
     (case s of (image_counts, w) \<Rightarrow>
      if organize_by_type fl then
        (case os_path_join output_directory subtype of
           Inl e \<Rightarrow> (Some e, image_counts, w)
         | Inr type_dir \<Rightarrow>
            (case makedirs env type_dir (fs w) of
               (ok, fs1) \<Rightarrow>
                 let w1 = w\<lparr>fs := fs1\<rparr> in
                 if \<not> ok then (Some OSError, image_counts, w1)
                 else
                   let image_filename =
                         clean_source_name @ ''_p'' @ py_str env page_number @ ''_''
                           @ string_of_nat doc_idx @ ''.'' @ image_type;
                       image_path = path_join type_dir image_filename
                   in (None, try_save env image_content clean_source_name subtype image_type
                               image_path (image_counts, w1))))
      else
        let image_filename =
              clean_source_name @ ''_'' @ py_str env subtype @ ''_p'' @ py_str env page_number
                @ ''_'' @ string_of_nat doc_idx @ ''.'' @ image_type;
            image_path = path_join output_directory image_filename
        in (None, try_save env image_content clean_source_name subtype image_type
                    image_path (image_counts, w)))"

text \<open>Lines 94 to 170, one turn of the loop: the outer handler logs the index of the
  record whose processing raised, and the loop goes on.\<close>

definition process_document ::
  "('fs, 'img) env \<Rightarrow> flags \<Rightarrow> string \<Rightarrow> nat \<Rightarrow> pyval \<Rightarrow> counts \<times> 'fs world \<Rightarrow> counts \<times> 'fs world" where
  "process_document env fl output_directory doc_idx document s =
     (case prepare env fl doc_idx document of
        Inl e \<Rightarrow> (fst s, log (Error_process doc_idx e) (snd s))
      | Inr No_content \<Rightarrow> s
      | Inr Excluded \<Rightarrow> s
      | Inr (Selected image_content clean_source_name subtype page_number image_type) \<Rightarrow>
         (case save_item env fl output_directory doc_idx image_content clean_source_name
                 subtype page_number image_type s of
            (Some e, image_counts, w) \<Rightarrow> (image_counts, log (Error_process doc_idx e) w)
          | (None, image_counts, w) \<Rightarrow> (image_counts, w)))"

text \<open>Line 93: the loop over \<^verbatim>\<open>enumerate(response_data)\<close>.\<close>

fun process_all ::
  "('fs, 'img) env \<Rightarrow> flags \<Rightarrow> string \<Rightarrow> nat \<Rightarrow> pyval list \<Rightarrow> counts \<times> 'fs world \<Rightarrow> counts \<times> 'fs world" where
  "process_all env fl output_directory doc_idx [] s = s"
| "process_all env fl output_directory doc_idx (document # rest) s =
     process_all env fl output_directory (Suc doc_idx) rest
       (process_document env fl output_directory doc_idx document s)"

text \<open>Lines 172 to 179: the summary, one line for each category with a positive count,
  in the order of the dictionary.\<close>

definition log_summary :: "flags \<Rightarrow> string \<Rightarrow> counts \<Rightarrow> 'fs world \<Rightarrow> exn + 'fs world" where
  "log_summary fl output_directory image_counts w =
     (if count_images fl then
        (case map_of image_counts ''total'' of
           None \<Rightarrow> Inl KeyError
         | Some total_count \<Rightarrow>
            if total_count > 0 then
              Inr (w\<lparr>logs := logs w @ Info_saved total_count output_directory
                      # map (\<lambda>kc. Info_category (fst kc) (snd kc))
                          (filter (\<lambda>kc. fst kc \<noteq> ''total'' \<and> snd kc > 0) image_counts)\<rparr>)
            else Inr (log Info_none w))
      else Inr w)"

text \<open>The whole function. \<open>Inl\<close> is an exception that reaches the caller, \<open>Inr\<close> the
  returned dictionary; the world is returned as the call left it.\<close>

definition save_images_to_disk ::
  "('fs, 'img) env \<Rightarrow> pyval \<Rightarrow> string \<Rightarrow> flags \<Rightarrow> 'fs world \<Rightarrow> (exn + counts) \<times> 'fs world" where
  "save_images_to_disk env response_data output_directory fl w =
     (if \<not> truthy response_data then (Inr [], log (Warning ''No response data provided'') w)
      else
        (case makedirs env output_directory (fs w) of
           (ok, fs1) \<Rightarrow>
             let w1 = w\<lparr>fs := fs1\<rparr> in
             if \<not> ok then (Inl OSError, w1)
             else
               (case py_iter response_data of
                  Inl e \<Rightarrow> (Inl e, w1)
                | Inr documents \<Rightarrow>
                   (case process_all env fl output_directory 0 documents (initial_counts, w1) of
                      (image_counts, w2) \<Rightarrow>
                        (case log_summary fl output_directory image_counts w2 of
                           Inl e \<Rightarrow> (Inl e, w2)
                         | Inr w3 \<Rightarrow> (Inr image_counts, w3))))))"

section \<open>The two adapters\<close>

text \<open>\<^verbatim>\<open>save_images_from_response\<close>: the envelope is a dictionary.\<close>

definition save_images_from_response ::
  "('fs, 'img) env \<Rightarrow> (string \<times> pyval) list \<Rightarrow> string \<Rightarrow> flags \<Rightarrow> 'fs world \<Rightarrow> (exn + counts) \<times> 'fs world" where
  "save_images_from_response env response output_directory fl w =
     (case map_of response ''data'' of
        None \<Rightarrow> (Inr [], log (Warning ''No data found in response'') w)
      | Some data \<Rightarrow>
          if \<not> truthy data then (Inr [], log (Warning ''No data found in response'') w)
          else save_images_to_disk env data output_directory fl w)"

text \<open>\<^verbatim>\<open>save_images_from_ingestor_results\<close>, lines 233 to 238: a list is spliced in
  (\<^verbatim>\<open>extend\<close>), anything else is added as one element (\<^verbatim>\<open>append\<close>).\<close>

definition flatten_results :: "pyval list \<Rightarrow> pyval list" where
  "flatten_results results =
     foldl (\<lambda>all_documents doc_results.
              case doc_results of
                PList xs \<Rightarrow> all_documents @ xs
              | _ \<Rightarrow> all_documents @ [doc_results]) [] results"

definition save_images_from_ingestor_results ::
  "('fs, 'img) env \<Rightarrow> pyval list \<Rightarrow> string \<Rightarrow> flags \<Rightarrow> 'fs world \<Rightarrow> (exn + counts) \<times> 'fs world" where
  "save_images_from_ingestor_results env results output_directory fl w =
     save_images_to_disk env (PList (flatten_results results)) output_directory fl w"

section \<open>Definitions used to state the properties\<close>

text \<open>The five category keys of the counters dictionary.\<close>

definition categories :: "string list" where
  "categories = [''chart'', ''table'', ''infographic'', ''page_image'', ''image'']"

text \<open>\<^verbatim>\<open>counts["total"] == sum(counts[c] for c in categories)\<close>, with every key present.\<close>

definition total_is_sum :: "counts \<Rightarrow> bool" where
  "total_is_sum cs =
     (list_all (\<lambda>k. map_of cs k \<noteq> None) (''total'' # categories)
      \<and> the (map_of cs ''total'') = sum_list (map (\<lambda>k. the (map_of cs k)) categories))"

text \<open>The invariant of the loop: the dictionary has its six keys, in the order of line 88,
  and the total is the sum of the five others.\<close>

definition counts_inv :: "counts \<Rightarrow> bool" where
  "counts_inv cs =
     (\<exists>a b c d e. cs =
        [(''chart'', a), (''table'', b), (''infographic'', c), (''page_image'', d),
         (''image'', e), (''total'', a + b + c + d + e)])"

text \<open>The inclusion rule in the words of the specification: the subtype is one of the four
  named categories and its flag is on, or the document type is \<^verbatim>\<open>"image"\<close>, the subtype is
  none of the four and the raw image flag is on.\<close>

definition included :: "flags \<Rightarrow> pyval \<Rightarrow> pyval \<Rightarrow> bool" where
  "included fl doc_type subtype =
     ((subtype = PStr ''chart'' \<and> save_charts fl)
      \<or> (subtype = PStr ''table'' \<and> save_tables fl)
      \<or> (subtype = PStr ''infographic'' \<and> save_infographics fl)
      \<or> (subtype = PStr ''page_image'' \<and> save_page_images fl)
      \<or> (doc_type = PStr ''image''
          \<and> subtype \<noteq> PStr ''chart'' \<and> subtype \<noteq> PStr ''table''
          \<and> subtype \<noteq> PStr ''infographic'' \<and> subtype \<noteq> PStr ''page_image''
          \<and> save_raw_images fl))"

text \<open>The effective category of a selected record: its subtype when that is one of the
  four named categories, \<^verbatim>\<open>"image"\<close> otherwise.\<close>

definition category_of :: "pyval \<Rightarrow> pyval" where
  "category_of subtype =
     (if subtype \<in> set [PStr ''chart'', PStr ''table'', PStr ''infographic'', PStr ''page_image'']
      then subtype else PStr ''image'')"

text \<open>The destination path in the words of step 7 of the specification, for a clean
  source name, a category, a page number and an image type.\<close>

definition destination_path ::
  "('fs, 'img) env \<Rightarrow> flags \<Rightarrow> string \<Rightarrow> nat \<Rightarrow> string \<Rightarrow> string \<Rightarrow> pyval \<Rightarrow> string \<Rightarrow> string" where
  "destination_path env fl output_directory doc_idx stem category page_number ext =
     (if organize_by_type fl
      then path_join (path_join output_directory category)
             (stem @ ''_p'' @ py_str env page_number @ ''_'' @ string_of_nat doc_idx @ ''.'' @ ext)
      else path_join output_directory
             (stem @ ''_'' @ category @ ''_p'' @ py_str env page_number @ ''_''
                @ string_of_nat doc_idx @ ''.'' @ ext))"

text \<open>The format name that line 157 passes to \<^verbatim>\<open>Image.save\<close> for an image type.\<close>

definition write_format :: "string \<Rightarrow> string" where
  "write_format ext = str_upper (if ext = ''jpeg'' then ''jpg'' else ext)"

text \<open>The flattening in the words of the specification: the elements of each sublist in
  order, then the next element's.\<close>

fun flattened :: "pyval list \<Rightarrow> pyval list" where
  "flattened [] = []"
| "flattened (PList xs # rest) = xs @ flattened rest"
| "flattened (r # rest) = r # flattened rest"

subsection \<open>A test environment\<close>

text \<open>
  Modelled from the spec: \<^verbatim>\<open>get_valid_filename\<close> of
  \<^verbatim>\<open>nv_ingest_client.client.util.processing\<close>, which is not among the sources. The
  specification says of it that it strips or replaces the characters unsafe for file
  names and that it is deterministic and idempotent. Here letters, digits, dash,
  underscore and dot are safe, a space is replaced by an underscore and every other
  character is stripped.
\<close>

definition safe_char :: "char \<Rightarrow> bool" where
  "safe_char c =
     (c \<in> set ''abcdefghijklmnopqrstuvwxyzABCDEFGHIJKLMNOPQRSTUVWXYZ0123456789-_.'')"

definition sanitize :: "string \<Rightarrow> string" where
  "sanitize s = filter safe_char (map (\<lambda>c. if c = CHR '' '' then CHR ''_'' else c) s)"

text \<open>
  The concrete runs below need library calls that compute. In this environment the file
  system is the list of the calls made on it, each with its outcome. Base64 text is
  accepted when it is over the base64 alphabet and its length is a multiple of four, and
  its bytes are handed on undecoded; any bytes but the empty ones open as an image; an
  image is written when the format name is one the imaging library registers; a
  directory is created unless its path is empty.
\<close>

datatype fs_call =
    Makedirs string bool
  | Save_image string string bool

definition b64_char :: "char \<Rightarrow> bool" where
  "b64_char c =
     (c \<in> set ''abcdefghijklmnopqrstuvwxyzABCDEFGHIJKLMNOPQRSTUVWXYZ0123456789+/='')"

definition sim_env :: "(fs_call list, bytes) env" where
  "sim_env =
     \<lparr>get_valid_filename = (\<lambda>s. Some (sanitize s)),
      b64decode = (\<lambda>s. if list_all b64_char s \<and> length s mod 4 = 0
                         then Some (map (\<lambda>c. of_nat (of_char c)) s) else None),
      image_open = (\<lambda>d. if d = [] then None else Some d),
      image_save = (\<lambda>img path fmt calls.
                      let ok = (fmt \<in> set [''PNG'', ''JPEG'', ''GIF'', ''BMP'', ''TIFF'', ''WEBP''])
                      in (ok, calls @ [Save_image path fmt ok])),
      makedirs = (\<lambda>path calls. (path \<noteq> [], calls @ [Makedirs path (path \<noteq> [])])),
      format_value = (\<lambda>v. ''?'')\<rparr>"

definition w0 :: "fs_call list world" where
  "w0 = \<lparr>logs = [], fs = []\<rparr>"

text \<open>A record of the shape of section 3 of the specification, every field present.\<close>

definition image_record :: "string \<Rightarrow> string \<Rightarrow> string \<Rightarrow> string \<Rightarrow> int \<Rightarrow> string \<Rightarrow> pyval" where
  "image_record document_type content source_id subtype page_number image_type =
     PDict [(''document_type'', PStr document_type),
            (''metadata'', PDict
               [(''content'', PStr content),
                (''source_metadata'', PDict [(''source_id'', PStr source_id)]),
                (''content_metadata'', PDict [(''subtype'', PStr subtype),
                                             (''page_number'', PInt page_number)]),
                (''image_metadata'', PDict [(''image_type'', PStr image_type)])])]"

text \<open>The record of the scenario of section 8; \<open>iVBORw0KGgo=\<close> is the PNG signature in
  base64.\<close>

definition scenario_record :: "string \<Rightarrow> pyval" where
  "scenario_record content =
     image_record ''image'' content ''a/b/report.pdf'' ''page_image'' 2 ''png''"

definition page_flags :: flags where
  "page_flags = default_flags\<lparr>save_page_images := True\<rparr>"

text \<open>Three records from two sources, and a record whose image type is \<^verbatim>\<open>"jpeg"\<close>;
  \<open>/9j/4AAQ\<close> is the start of a JPEG file in base64.\<close>

definition record_a :: pyval where
  "record_a = image_record ''image'' ''iVBORw0KGgo='' ''docs/one.pdf'' ''chart'' 1 ''png''"

definition record_b :: pyval where
  "record_b = image_record ''image'' ''iVBORw0KGgo='' ''docs/one.pdf'' ''table'' 2 ''png''"

definition record_c :: pyval where
  "record_c = image_record ''image'' ''iVBORw0KGgo='' ''docs/two.pdf'' ''chart'' 1 ''png''"

definition jpeg_record :: pyval where
  "jpeg_record = image_record ''image'' ''/9j/4AAQ'' ''a/b/report.pdf'' ''chart'' 0 ''jpeg''"

section \<open>The invariant of the loop and the outcomes of one record\<close>

lemma counts_inv_initial: "counts_inv initial_counts"
  by (simp add: counts_inv_def initial_counts_def)

lemma counts_inv_incr:
  assumes "counts_inv cs" and "k \<in> set categories"
  shows "\<exists>c1 c2. dict_incr cs (PStr k) = Inr c1 \<and> dict_incr c1 (PStr ''total'') = Inr c2
           \<and> counts_inv c2"
proof -
  from assms(1) obtain a b c d e where cs: "cs =
     [(''chart'', a), (''table'', b), (''infographic'', c), (''page_image'', d),
      (''image'', e), (''total'', a + b + c + d + e)]"
    unfolding counts_inv_def by blast
  from assms(2) consider "k = ''chart''" | "k = ''table''" | "k = ''infographic''"
    | "k = ''page_image''" | "k = ''image''"
    by (auto simp: categories_def)
  then show ?thesis
    by cases (simp_all add: cs counts_inv_def)
qed

lemma filter_subtype_category:
  "filter_subtype fl dt st = (True, s) \<Longrightarrow> s \<in> PStr ` set categories"
  by (auto simp: filter_subtype_def categories_def split: if_splits)

lemma prepare_Selected:
  assumes "prepare env fl i doc = Inr (Selected c n s p t)"
  shows "s \<in> PStr ` set categories \<and> truthy c"
  using assms
  by (auto simp: prepare_def ebind_def split: sum.splits if_splits prod.splits option.splits
      dest: filter_subtype_category)

lemma try_save_cases:
  assumes "counts_inv cs" and "k \<in> set categories"
  shows "(\<exists>e f. try_save env c n (PStr k) t path (cs, w) = (cs, log (Error_save k n e) (w\<lparr>fs := f\<rparr>)))
       \<or> (\<exists>c1 c2 f. dict_incr cs (PStr k) = Inr c1 \<and> dict_incr c1 (PStr ''total'') = Inr c2
            \<and> counts_inv c2
            \<and> try_save env c n (PStr k) t path (cs, w) = (c2, log (Debug_saved k path) (w\<lparr>fs := f\<rparr>)))"
proof -
  from counts_inv_incr [OF assms] obtain c1 c2 where
    inc: "dict_incr cs (PStr k) = Inr c1" "dict_incr c1 (PStr ''total'') = Inr c2" "counts_inv c2"
    by blast
  have w: "w = w\<lparr>fs := fs w\<rparr>" by simp
  show ?thesis
  proof (cases "b64decode_val env c")
    case (Inl e)
    then have "try_save env c n (PStr k) t path (cs, w) = (cs, log (Error_save k n e) (w\<lparr>fs := fs w\<rparr>))"
      by (simp add: try_save_def)
    then show ?thesis by blast
  next
    case (Inr d)
    show ?thesis
    proof (cases "image_open env d")
      case None
      with Inr have "try_save env c n (PStr k) t path (cs, w)
          = (cs, log (Error_save k n ImageDecodeError) (w\<lparr>fs := fs w\<rparr>))"
        by (simp add: try_save_def)
      then show ?thesis by blast
    next
      case (Some img)
      obtain ok f where sv:
        "image_save env img path (str_upper (if t = ''jpeg'' then ''jpg'' else t)) (fs w) = (ok, f)"
        by (cases "image_save env img path (str_upper (if t = ''jpeg'' then ''jpg'' else t)) (fs w)")
      show ?thesis
      proof (cases ok)
        case True
        with Inr Some sv inc have "try_save env c n (PStr k) t path (cs, w)
            = (c2, log (Debug_saved k path) (w\<lparr>fs := f\<rparr>))"
          by (simp add: try_save_def del: dict_incr.simps)
        with inc show ?thesis by blast
      next
        case False
        with Inr Some sv have "try_save env c n (PStr k) t path (cs, w)
            = (cs, log (Error_save k n WriteError) (w\<lparr>fs := f\<rparr>))"
          by (simp add: try_save_def)
        then show ?thesis by blast
      qed
    qed
  qed
qed


lemma save_item_cases:
  assumes "counts_inv cs" and "k \<in> set categories"
  shows "(\<exists>e f. save_item env fl out i c n (PStr k) p t (cs, w) = (Some e, cs, w\<lparr>fs := f\<rparr>))
       \<or> (\<exists>e f. save_item env fl out i c n (PStr k) p t (cs, w)
              = (None, cs, log (Error_save k n e) (w\<lparr>fs := f\<rparr>)))
       \<or> (\<exists>c1 c2 path f. dict_incr cs (PStr k) = Inr c1 \<and> dict_incr c1 (PStr ''total'') = Inr c2
            \<and> counts_inv c2
            \<and> save_item env fl out i c n (PStr k) p t (cs, w)
                = (None, c2, log (Debug_saved k path) (w\<lparr>fs := f\<rparr>)))"
proof (cases "organize_by_type fl")
  case False
  then have eq: "save_item env fl out i c n (PStr k) p t (cs, w)
      = (None, try_save env c n (PStr k) t
           (path_join out (n @ ''_'' @ k @ ''_p'' @ py_str env p @ ''_'' @ string_of_nat i @ ''.'' @ t))
           (cs, w))"
    by (simp add: save_item_def)
  from try_save_cases [OF assms, of env c n t
      "path_join out (n @ ''_'' @ k @ ''_p'' @ py_str env p @ ''_'' @ string_of_nat i @ ''.'' @ t)" w]
  show ?thesis
    unfolding eq by (simp del: dict_incr.simps) blast
next
  case True
  obtain ok f1 where mk: "makedirs env (path_join out k) (fs w) = (ok, f1)"
    by (cases "makedirs env (path_join out k) (fs w)")
  show ?thesis
  proof (cases ok)
    case False
    with True mk have "save_item env fl out i c n (PStr k) p t (cs, w) = (Some OSError, cs, w\<lparr>fs := f1\<rparr>)"
      by (simp add: save_item_def)
    then show ?thesis by blast
  next
    case ok: True
    with True mk have eq: "save_item env fl out i c n (PStr k) p t (cs, w)
      = (None, try_save env c n (PStr k) t
           (path_join (path_join out k) (n @ ''_p'' @ py_str env p @ ''_'' @ string_of_nat i @ ''.'' @ t))
           (cs, w\<lparr>fs := f1\<rparr>))"
      by (simp add: save_item_def)
    from try_save_cases [OF assms, of env c n t
        "path_join (path_join out k) (n @ ''_p'' @ py_str env p @ ''_'' @ string_of_nat i @ ''.'' @ t)"
        "w\<lparr>fs := f1\<rparr>"]
    show ?thesis
      unfolding eq by (simp del: dict_incr.simps) blast
  qed
qed

lemma process_document_selected:
  assumes "counts_inv cs" and "prepare env fl i doc = Inr (Selected c n (PStr k) p t)"
  shows "(\<exists>e f. process_document env fl out i doc (cs, w) = (cs, log (Error_process i e) (w\<lparr>fs := f\<rparr>)))
       \<or> (\<exists>e f. process_document env fl out i doc (cs, w)
              = (cs, log (Error_save k n e) (w\<lparr>fs := f\<rparr>)))
       \<or> (\<exists>c1 c2 path f. dict_incr cs (PStr k) = Inr c1
            \<and> dict_incr c1 (PStr ''total'') = Inr c2 \<and> counts_inv c2
            \<and> process_document env fl out i doc (cs, w)
                = (c2, log (Debug_saved k path) (w\<lparr>fs := f\<rparr>)))"
proof -
  from prepare_Selected [OF assms(2)] have k: "k \<in> set categories" by auto
  from save_item_cases [OF assms(1) k, of env fl out i c n p t w]
  show ?thesis
  proof (elim disjE exE conjE)
    fix e f assume "save_item env fl out i c n (PStr k) p t (cs, w) = (Some e, cs, w\<lparr>fs := f\<rparr>)"
    with assms(2) have "process_document env fl out i doc (cs, w)
        = (cs, log (Error_process i e) (w\<lparr>fs := f\<rparr>))"
      by (simp add: process_document_def)
    then show ?thesis by blast
  next
    fix e f assume "save_item env fl out i c n (PStr k) p t (cs, w)
        = (None, cs, log (Error_save k n e) (w\<lparr>fs := f\<rparr>))"
    with assms(2) have "process_document env fl out i doc (cs, w)
        = (cs, log (Error_save k n e) (w\<lparr>fs := f\<rparr>))"
      by (simp add: process_document_def)
    then show ?thesis by blast
  next
    fix c1 c2 path f
    assume inc: "dict_incr cs (PStr k) = Inr c1" "dict_incr c1 (PStr ''total'') = Inr c2"
      "counts_inv c2"
      and "save_item env fl out i c n (PStr k) p t (cs, w)
        = (None, c2, log (Debug_saved k path) (w\<lparr>fs := f\<rparr>))"
    with assms(2) have "process_document env fl out i doc (cs, w)
        = (c2, log (Debug_saved k path) (w\<lparr>fs := f\<rparr>))"
      by (simp add: process_document_def)
    with inc show ?thesis by blast
  qed
qed

lemma process_document_cases:
  assumes "counts_inv cs"
  shows "process_document env fl out i doc (cs, w) = (cs, w)
       \<or> (\<exists>e f. process_document env fl out i doc (cs, w) = (cs, log (Error_process i e) (w\<lparr>fs := f\<rparr>)))
       \<or> (\<exists>k n e f. process_document env fl out i doc (cs, w)
              = (cs, log (Error_save k n e) (w\<lparr>fs := f\<rparr>)))
       \<or> (\<exists>k c1 c2 path f. k \<in> set categories \<and> dict_incr cs (PStr k) = Inr c1
            \<and> dict_incr c1 (PStr ''total'') = Inr c2 \<and> counts_inv c2
            \<and> process_document env fl out i doc (cs, w)
                = (c2, log (Debug_saved k path) (w\<lparr>fs := f\<rparr>)))"
proof (cases "prepare env fl i doc")
  case (Inl e)
  then have "process_document env fl out i doc (cs, w) = (cs, log (Error_process i e) (w\<lparr>fs := fs w\<rparr>))"
    by (simp add: process_document_def)
  then show ?thesis by blast
next
  case (Inr r)
  show ?thesis
  proof (cases r)
    case No_content
    with Inr show ?thesis by (simp add: process_document_def)
  next
    case Excluded
    with Inr show ?thesis by (simp add: process_document_def)
  next
    case (Selected c n s p t)
    with Inr prepare_Selected [of env fl i doc c n s p t] obtain k where
      k: "k \<in> set categories" "s = PStr k" by auto
    with Inr Selected have "prepare env fl i doc = Inr (Selected c n (PStr k) p t)" by simp
    from process_document_selected [OF assms this, of out w] k(1)
    show ?thesis by blast
  qed
qed

lemma process_document_inv:
  assumes "counts_inv (fst s)"
  shows "counts_inv (fst (process_document env fl out i doc s))"
proof -
  obtain cs w where s: "s = (cs, w)" by (cases s)
  with assms have inv: "counts_inv cs" by simp
  from process_document_cases [OF inv, of env fl out i doc w] inv show ?thesis
    unfolding s by auto
qed

lemma process_all_inv:
  "counts_inv (fst s) \<Longrightarrow> counts_inv (fst (process_all env fl out i docs s))"
  by (induction docs arbitrary: i s) (simp_all add: process_document_inv)

lemma counts_inv_total: "counts_inv cs \<Longrightarrow> \<exists>t. map_of cs ''total'' = Some t"
  by (auto simp: counts_inv_def)

lemma log_summary_Inr: "counts_inv cs \<Longrightarrow> \<exists>w'. log_summary fl out cs w = Inr w'"
  by (auto simp: log_summary_def dest: counts_inv_total)

lemma exporter_returns:
  assumes "fst (makedirs env out (fs w))"
  shows "\<exists>w'. save_images_to_disk env (PList docs) out fl w
           = (Inr (if docs = [] then [] else
                   fst (process_all env fl out 0 docs
                         (initial_counts, w\<lparr>fs := snd (makedirs env out (fs w))\<rparr>))), w')"
proof (cases "docs = []")
  case True
  then show ?thesis by (simp add: save_images_to_disk_def)
next
  case False
  obtain f1 where mk: "makedirs env out (fs w) = (True, f1)"
    using assms by (cases "makedirs env out (fs w)") auto
  obtain cs w2 where pa: "process_all env fl out 0 docs (initial_counts, w\<lparr>fs := f1\<rparr>) = (cs, w2)"
    by (cases "process_all env fl out 0 docs (initial_counts, w\<lparr>fs := f1\<rparr>)")
  have "counts_inv cs"
    using process_all_inv [of "(initial_counts, w\<lparr>fs := f1\<rparr>)" env fl out 0 docs] pa
    by (simp add: counts_inv_initial)
  then obtain w3 where "log_summary fl out cs w2 = Inr w3"
    using log_summary_Inr by blast
  with False mk pa show ?thesis
    by (simp add: save_images_to_disk_def)
qed


lemmas model_defs = save_images_to_disk_def process_document_def prepare_def ebind_def
  filter_subtype_def save_item_def try_save_def log_summary_def log_def initial_counts_def
  basename_def path_join_def string_of_int_def lower_char_def upper_char_def str_upper_def
  digit_char_def Let_def

lemmas sim_defs = sim_env_def sanitize_def safe_char_def b64_char_def w0_def default_flags_def
  page_flags_def image_record_def scenario_record_def

lemma string_of_nat_digit: "n < 10 \<Longrightarrow> string_of_nat n = [digit_char n]"
  by (simp add: string_of_nat.simps)

lemma run_scenario:
  "save_images_to_disk sim_env (PList [scenario_record ''iVBORw0KGgo='']) ''out'' page_flags w0 =
   (Inr [(''chart'', 0), (''table'', 0), (''infographic'', 0),
         (''page_image'', 1), (''image'', 0), (''total'', 1)],
    \<lparr>logs = [Debug_saved ''page_image'' ''out/page_image/report.pdf_p2_0.png'',
             Info_saved 1 ''out'', Info_category ''page_image'' 1],
     fs = [Makedirs ''out'' True, Makedirs ''out/page_image'' True,
           Save_image ''out/page_image/report.pdf_p2_0.png'' ''PNG'' True]\<rparr>)"
  by (simp add: model_defs sim_defs string_of_nat_digit)

lemma counts_inv_total_is_sum: "counts_inv cs \<Longrightarrow> total_is_sum cs"
  by (auto simp: counts_inv_def total_is_sum_def categories_def)

lemma filter_subtype_included:
  "filter_subtype fl dt st = (if included fl dt st then (True, category_of st) else (False, st))"
  by (auto simp: filter_subtype_def included_def category_of_def)

lemma process_document_counts_unchanged:
  assumes "\<And>c n s p t. prepare env fl i doc \<noteq> Inr (Selected c n s p t)"
  shows "fst (process_document env fl out i doc s) = fst s
         \<and> fs (snd (process_document env fl out i doc s)) = fs (snd s)"
proof (cases "prepare env fl i doc")
  case (Inl e)
  then show ?thesis by (simp add: process_document_def log_def)
next
  case (Inr r)
  show ?thesis
  proof (cases r)
    case No_content
    with Inr show ?thesis by (simp add: process_document_def)
  next
    case Excluded
    with Inr show ?thesis by (simp add: process_document_def)
  next
    case (Selected c n k p t)
    with Inr assms show ?thesis by blast
  qed
qed

lemma scenario_fields:
  "dict_get (scenario_record c0) ''metadata'' (PDict []) =
     Inr (PDict [(''content'', PStr c0),
                 (''source_metadata'', PDict [(''source_id'', PStr ''a/b/report.pdf'')]),
                 (''content_metadata'', PDict [(''subtype'', PStr ''page_image''),
                                              (''page_number'', PInt 2)]),
                 (''image_metadata'', PDict [(''image_type'', PStr ''png'')])])"
  "dict_get (scenario_record c0) ''document_type'' (PStr ''unknown'') = Inr (PStr ''image'')"
  by (simp_all add: scenario_record_def image_record_def)

lemma prepare_scenario:
  "prepare sim_env page_flags 0 (scenario_record ''iVBORw0KGgo='')
     = Inr (Selected (PStr ''iVBORw0KGgo='') ''report.pdf'' (PStr ''page_image'') (PInt 2) ''png'')"
  by (simp add: model_defs sim_defs)

text \<open>The sanitiser of the test environment is idempotent, as the specification asks of
  \<^verbatim>\<open>get_valid_filename\<close>.\<close>

lemma sanitize_idempotent: "sanitize (sanitize s) = sanitize s"
  by (induction s) (auto simp: sanitize_def safe_char_def)

lemma prepare_Selected_content:
  assumes "prepare env fl i doc = Inr (Selected c n s p t)"
    and "dict_get doc ''metadata'' (PDict []) = Inr md"
    and "dict_get md ''content'' PNone = Inr c0"
  shows "c = c0"
  using assms
  by (auto simp: prepare_def ebind_def split: sum.splits if_splits prod.splits option.splits)

lemma try_save_decode_failed:
  assumes "b64decode_val env c = Inl e"
  shows "try_save env c n s t path (cs, w) = (cs, log (Error_save (py_str env s) n e) w)"
  using assms by (simp add: try_save_def)

lemma save_item_decode_failed:
  assumes "b64decode_val env c = Inl e"
  shows "fst (snd (save_item env fl out i c n s p t (cs, w))) = cs"
  using assms
  by (auto simp: save_item_def Let_def try_save_decode_failed split: sum.splits prod.splits)

lemma process_document_decode_failed:
  assumes "dict_get doc ''metadata'' (PDict []) = Inr md"
    and "dict_get md ''content'' PNone = Inr (PStr content)"
    and "b64decode env content = None"
  shows "fst (process_document env fl out i doc (cs, w)) = cs"
proof (cases "prepare env fl i doc")
  case (Inl e)
  then show ?thesis by (simp add: process_document_def)
next
  case (Inr r)
  show ?thesis
  proof (cases r)
    case No_content
    with Inr show ?thesis by (simp add: process_document_def)
  next
    case Excluded
    with Inr show ?thesis by (simp add: process_document_def)
  next
    case (Selected c n s p t)
    with Inr prepare_Selected_content [OF _ assms(1,2)] have c: "c = PStr content" by simp
    with assms(3) have "b64decode_val env c = Inl DecodeError" by simp
    from save_item_decode_failed [OF this, of fl out i n s p t cs w]
    show ?thesis using Inr Selected
      by (cases "save_item env fl out i c n s p t (cs, w)")
        (auto simp: process_document_def split: option.splits)
  qed
qed

lemma run_invalid_base64:
  "save_images_to_disk sim_env (PList [scenario_record ''abc'']) ''out'' page_flags w0 =
   (Inr [(''chart'', 0), (''table'', 0), (''infographic'', 0),
         (''page_image'', 0), (''image'', 0), (''total'', 0)],
    \<lparr>logs = [Error_save ''page_image'' ''report.pdf'' DecodeError, Info_none],
     fs = [Makedirs ''out'' True, Makedirs ''out/page_image'' True]\<rparr>)"
  by (simp add: model_defs sim_defs string_of_nat_digit)


lemma string_of_int_2: "string_of_int 2 = ''2''"
  by (simp add: string_of_int_def string_of_nat_digit digit_char_def)

lemma string_of_nat_0: "string_of_nat 0 = ''0''"
  by (simp add: string_of_nat_digit digit_char_def)

lemma basename_report: "basename ''a/b/report.pdf'' = ''report.pdf''"
  by (simp add: basename_def)

lemma prepare_scenario_general:
  assumes "save_page_images fl" and "get_valid_filename env ''report.pdf'' = Some name"
    and "content \<noteq> []"
  shows "prepare env fl 0 (scenario_record content)
           = Inr (Selected (PStr content) name (PStr ''page_image'') (PInt 2) ''png'')"
  using assms
  by (simp add: prepare_def ebind_def scenario_record_def image_record_def basename_report
      filter_subtype_def lower_char_def)

lemma flatten_foldl:
  "foldl (\<lambda>all_documents doc_results.
              case doc_results of
                PList xs \<Rightarrow> all_documents @ xs
              | _ \<Rightarrow> all_documents @ [doc_results]) acc results
   = acc @ flattened results"
proof (induction results arbitrary: acc)
  case Nil
  show ?case by simp
next
  case (Cons r rs)
  show ?case by (cases r) (simp_all add: Cons.IH)
qed

lemma flatten_results_flattened: "flatten_results results = flattened results"
  by (simp add: flatten_results_def flatten_foldl)

lemma process_all_append:
  "process_all env fl out i (xs @ ys) s
     = process_all env fl out (i + length xs) ys (process_all env fl out i xs s)"
  by (induction xs arbitrary: i s) simp_all

lemma run_three_records:
  "save_images_to_disk sim_env (PList [record_a, record_b, record_c]) ''out'' default_flags w0 =
   (Inr [(''chart'', 2), (''table'', 1), (''infographic'', 0),
         (''page_image'', 0), (''image'', 0), (''total'', 3)],
    \<lparr>logs = [Debug_saved ''chart'' ''out/chart/one.pdf_p1_0.png'',
             Debug_saved ''table'' ''out/table/one.pdf_p2_1.png'',
             Debug_saved ''chart'' ''out/chart/two.pdf_p1_2.png'',
             Info_saved 3 ''out'', Info_category ''chart'' 2, Info_category ''table'' 1],
     fs = [Makedirs ''out'' True,
           Makedirs ''out/chart'' True,
           Save_image ''out/chart/one.pdf_p1_0.png'' ''PNG'' True,
           Makedirs ''out/table'' True,
           Save_image ''out/table/one.pdf_p2_1.png'' ''PNG'' True,
           Makedirs ''out/chart'' True,
           Save_image ''out/chart/two.pdf_p1_2.png'' ''PNG'' True]\<rparr>)"
  by (simp add: model_defs sim_defs record_a_def record_b_def record_c_def string_of_nat_digit)

text \<open>When a selected record is saved and when it is not.\<close>

lemma counts_inv_incr_changes:
  assumes "counts_inv cs" and "k \<in> set categories"
    and "dict_incr cs (PStr k) = Inr c1" and "dict_incr c1 (PStr ''total'') = Inr c2"
  shows "c2 \<noteq> cs"
proof -
  from assms(1) obtain a b c d e where cs: "cs =
     [(''chart'', a), (''table'', b), (''infographic'', c), (''page_image'', d),
      (''image'', e), (''total'', a + b + c + d + e)]"
    unfolding counts_inv_def by blast
  from assms(2) consider "k = ''chart''" | "k = ''table''" | "k = ''infographic''"
    | "k = ''page_image''" | "k = ''image''"
    by (auto simp: categories_def)
  then show ?thesis
    using assms(3,4) by cases (auto simp: cs)
qed

lemma try_save_saved:
  assumes "counts_inv cs" and "k \<in> set categories"
    and "b64decode_val env c = Inr d" and "image_open env d = Some img"
    and "fst (image_save env img path (write_format t) (fs w))"
  shows "\<exists>c1 c2. dict_incr cs (PStr k) = Inr c1 \<and> dict_incr c1 (PStr ''total'') = Inr c2
           \<and> c2 \<noteq> cs
           \<and> try_save env c n (PStr k) t path (cs, w)
               = (c2, log (Debug_saved k path)
                        (w\<lparr>fs := snd (image_save env img path (write_format t) (fs w))\<rparr>))"
proof -
  from counts_inv_incr [OF assms(1,2)] obtain c1 c2 where
    inc: "dict_incr cs (PStr k) = Inr c1" "dict_incr c1 (PStr ''total'') = Inr c2"
    by blast
  from counts_inv_incr_changes [OF assms(1,2) inc] have neq: "c2 \<noteq> cs" .
  obtain f where sv: "image_save env img path (write_format t) (fs w) = (True, f)"
    using assms(5) by (cases "image_save env img path (write_format t) (fs w)") auto
  with assms(3,4) inc have "try_save env c n (PStr k) t path (cs, w)
      = (c2, log (Debug_saved k path) (w\<lparr>fs := f\<rparr>))"
    by (simp add: try_save_def write_format_def del: dict_incr.simps)
  with inc neq sv show ?thesis by (simp del: dict_incr.simps)
qed

lemma try_save_not_saved:
  assumes "\<And>d img. b64decode_val env c = Inr d \<Longrightarrow> image_open env d = Some img
             \<Longrightarrow> \<not> fst (image_save env img path (write_format t) (fs w))"
  shows "fst (try_save env c n s t path (cs, w)) = cs"
proof (cases "b64decode_val env c")
  case (Inl e)
  then show ?thesis by (simp add: try_save_def)
next
  case (Inr d)
  show ?thesis
  proof (cases "image_open env d")
    case None
    with Inr show ?thesis by (simp add: try_save_def)
  next
    case (Some img)
    from assms [OF Inr Some] obtain f where
      "image_save env img path (write_format t) (fs w) = (False, f)"
      by (cases "image_save env img path (write_format t) (fs w)") auto
    with Inr Some show ?thesis by (simp add: try_save_def write_format_def)
  qed
qed

lemma process_document_selected_eq:
  assumes "prepare env fl i doc = Inr (Selected c n (PStr k) p t)"
  shows "process_document env fl out i doc (cs, w)
         = (if organize_by_type fl
            then (if fst (makedirs env (path_join out k) (fs w))
                  then try_save env c n (PStr k) t (destination_path env fl out i n k p t)
                         (cs, w\<lparr>fs := snd (makedirs env (path_join out k) (fs w))\<rparr>)
                  else (cs, log (Error_process i OSError)
                              (w\<lparr>fs := snd (makedirs env (path_join out k) (fs w))\<rparr>)))
            else try_save env c n (PStr k) t (destination_path env fl out i n k p t) (cs, w))"
proof (cases "organize_by_type fl")
  case False
  with assms show ?thesis
    by (cases "try_save env c n (PStr k) t (destination_path env fl out i n k p t) (cs, w)")
      (simp add: process_document_def save_item_def destination_path_def)
next
  case True
  obtain ok f1 where mk: "makedirs env (path_join out k) (fs w) = (ok, f1)"
    by (cases "makedirs env (path_join out k) (fs w)")
  with True assms show ?thesis
    by (cases "try_save env c n (PStr k) t (destination_path env fl out i n k p t)
                 (cs, w\<lparr>fs := f1\<rparr>)")
      (simp add: process_document_def save_item_def destination_path_def)
qed

lemma process_document_saved:
  assumes inv: "counts_inv cs"
    and p: "prepare env fl i doc = Inr (Selected c n (PStr k) p t)"
    and mk: "mk = (if organize_by_type fl then makedirs env (path_join out k) (fs w)
                   else (True, fs w))"
    and ok: "fst mk" "b64decode_val env c = Inr d" "image_open env d = Some img"
      "fst (image_save env img (destination_path env fl out i n k p t) (write_format t) (snd mk))"
  shows "\<exists>c1 c2. dict_incr cs (PStr k) = Inr c1 \<and> dict_incr c1 (PStr ''total'') = Inr c2
           \<and> c2 \<noteq> cs
           \<and> process_document env fl out i doc (cs, w)
               = (c2, log (Debug_saved k (destination_path env fl out i n k p t))
                        (w\<lparr>fs := snd (image_save env img (destination_path env fl out i n k p t)
                                        (write_format t) (snd mk))\<rparr>))"
proof -
  from prepare_Selected [OF p] have k: "k \<in> set categories" by auto
  have eq: "process_document env fl out i doc (cs, w)
      = try_save env c n (PStr k) t (destination_path env fl out i n k p t) (cs, w\<lparr>fs := snd mk\<rparr>)"
    using ok(1) by (cases "organize_by_type fl") (simp_all add: process_document_selected_eq [OF p] mk)
  from try_save_saved [OF inv k ok(2,3), of "destination_path env fl out i n k p t" t
      "w\<lparr>fs := snd mk\<rparr>" n] ok(4)
  show ?thesis unfolding eq by (simp del: dict_incr.simps)
qed

lemma process_document_not_saved:
  assumes p: "prepare env fl i doc = Inr (Selected c n (PStr k) p t)"
    and mk: "mk = (if organize_by_type fl then makedirs env (path_join out k) (fs w)
                   else (True, fs w))"
    and no: "\<not> (fst mk \<and> (\<exists>d img. b64decode_val env c = Inr d \<and> image_open env d = Some img
               \<and> fst (image_save env img (destination_path env fl out i n k p t)
                        (write_format t) (snd mk))))"
  shows "fst (process_document env fl out i doc (cs, w)) = cs"
proof (cases "fst mk")
  case False
  then show ?thesis by (auto simp: process_document_selected_eq [OF p] mk split: if_splits)
next
  case True
  then have eq: "process_document env fl out i doc (cs, w)
      = try_save env c n (PStr k) t (destination_path env fl out i n k p t) (cs, w\<lparr>fs := snd mk\<rparr>)"
    by (cases "organize_by_type fl") (simp_all add: process_document_selected_eq [OF p] mk)
  have "fst (try_save env c n (PStr k) t (destination_path env fl out i n k p t)
               (cs, w\<lparr>fs := snd mk\<rparr>)) = cs"
    by (rule try_save_not_saved) (use True no in auto)
  then show ?thesis by (simp add: eq)
qed

lemma run_invalid_base64_empty_directory:
  "save_images_to_disk sim_env (PList [scenario_record ''abc'']) [] page_flags w0 =
   (Inl OSError, \<lparr>logs = [], fs = [Makedirs [] False]\<rparr>)"
  by (simp add: model_defs sim_defs)

section \<open>The properties\<close>

text \<open>
  C1. Whenever the exporter returns a dictionary that is not empty, the value under
  \<^verbatim>\<open>"total"\<close> is the sum of the values under the five category keys, and all six keys
  are there.
\<close>

theorem total_equals_category_sum:
  assumes "fst (save_images_to_disk env response_data out fl w) = Inr cs" and "cs \<noteq> []"
  shows "total_is_sum cs"
proof -
  obtain ok f1 where mk: "makedirs env out (fs w) = (ok, f1)"
    by (cases "makedirs env out (fs w)")
  from assms have t: "truthy response_data"
    by (auto simp: save_images_to_disk_def Let_def split: if_splits)
  from assms t mk have ok: "ok"
    by (auto simp: save_images_to_disk_def Let_def split: if_splits)
  from assms t mk ok obtain docs where it: "py_iter response_data = Inr docs"
    by (cases "py_iter response_data") (auto simp: save_images_to_disk_def Let_def)
  obtain cs' w2 where pa: "process_all env fl out 0 docs (initial_counts, w\<lparr>fs := f1\<rparr>) = (cs', w2)"
    by (cases "process_all env fl out 0 docs (initial_counts, w\<lparr>fs := f1\<rparr>)")
  have inv: "counts_inv cs'"
    using process_all_inv [of "(initial_counts, w\<lparr>fs := f1\<rparr>)" env fl out 0 docs] pa
    by (simp add: counts_inv_initial)
  from assms(1) t mk ok it pa have "cs = cs'"
    by (auto simp: save_images_to_disk_def Let_def split: sum.splits)
  with inv show ?thesis by (simp add: counts_inv_total_is_sum)
qed

theorem total_equals_category_sum_witness:
  "total_is_sum [(''chart'', 0), (''table'', 0), (''infographic'', 0),
                 (''page_image'', 1), (''image'', 0), (''total'', 1)]"
  using total_equals_category_sum [of sim_env "PList [scenario_record ''iVBORw0KGgo='']" "''out''"
          page_flags w0
          "[(''chart'', 0), (''table'', 0), (''infographic'', 0),
            (''page_image'', 1), (''image'', 0), (''total'', 1)]"]
  by (simp add: run_scenario)

text \<open>
  C2, as amended. For a record that carries content and whose fields are read without an
  exception, the flag \<^verbatim>\<open>should_save\<close> is set exactly when the subtype is one of the four
  named categories with its flag on, or the document type is \<^verbatim>\<open>"image"\<close>, the subtype is
  none of the four and the raw image flag is on; the record is then selected under its
  subtype, or under \<^verbatim>\<open>"image"\<close> in the second case. Any other combination is excluded:
  the counters and the file system stay as they were. A selected record, at any point of
  any call, is saved exactly when the category directory can be created (when there is one
  directory for each type) and the content decodes, opens and is written: then the image
  is written at its destination path in the format of line 157, the file system is as
  that write leaves it, and the category and the total go up by one. When one of these
  steps fails, the counters stay as they were.
\<close>

theorem inclusion_decision:
  assumes "dict_get doc ''metadata'' (PDict []) = Inr md"
    and "dict_get doc ''document_type'' (PStr ''unknown'') = Inr dt"
    and "dict_get md ''content'' PNone = Inr c" and "truthy c"
    and "dict_get md ''content_metadata'' (PDict []) = Inr cm"
    and "dict_get cm ''subtype'' (PStr ''image'') = Inr st"
  shows "(\<forall>r. prepare env fl i doc = Inr r \<longrightarrow>
            (if included fl dt st then \<exists>n p t. r = Selected c n (category_of st) p t
             else r = Excluded))
       \<and> (\<not> included fl dt st \<longrightarrow>
            fst (process_document env fl out i doc s) = fst s
            \<and> fs (snd (process_document env fl out i doc s)) = fs (snd s))
       \<and> (\<forall>n k p t. prepare env fl i doc = Inr (Selected c n (PStr k) p t) \<longrightarrow>
            (let s0 = process_all env fl out 0 pre (initial_counts, w1);
                 mk = (if organize_by_type fl
                       then makedirs env (path_join out k) (fs (snd s0))
                       else (True, fs (snd s0)));
                 path = destination_path env fl out i n k p t;
                 r = process_document env fl out i doc s0
             in (\<forall>d img. fst mk \<and> b64decode_val env c = Inr d \<and> image_open env d = Some img
                      \<and> fst (image_save env img path (write_format t) (snd mk)) \<longrightarrow>
                    (\<exists>c1 c2. dict_incr (fst s0) (PStr k) = Inr c1
                       \<and> dict_incr c1 (PStr ''total'') = Inr c2
                       \<and> c2 \<noteq> fst s0
                       \<and> r = (c2, log (Debug_saved k path)
                                    ((snd s0)\<lparr>fs := snd (image_save env img path (write_format t)
                                                         (snd mk))\<rparr>))))
                \<and> (\<not> (fst mk \<and> (\<exists>d img. b64decode_val env c = Inr d
                             \<and> image_open env d = Some img
                             \<and> fst (image_save env img path (write_format t) (snd mk)))) \<longrightarrow>
                     fst r = fst s0)))"
proof -
  have sel: "included fl dt st \<and> s' = category_of st \<and> c' = c"
    if "prepare env fl i doc = Inr (Selected c' n s' p t)" for c' n s' p t
    using that assms
    by (auto simp: prepare_def ebind_def filter_subtype_included
        split: sum.splits if_splits option.splits)
  have exc: "\<not> included fl dt st" if "prepare env fl i doc = Inr Excluded"
    using that assms
    by (auto simp: prepare_def ebind_def filter_subtype_included
        split: sum.splits if_splits option.splits)
  have nc: "prepare env fl i doc \<noteq> Inr No_content"
    using assms
    by (auto simp: prepare_def ebind_def filter_subtype_included
        split: sum.splits if_splits option.splits)
  have first: "\<forall>r. prepare env fl i doc = Inr r \<longrightarrow>
            (if included fl dt st then \<exists>n p t. r = Selected c n (category_of st) p t
             else r = Excluded)"
  proof (intro allI impI)
    fix r assume r: "prepare env fl i doc = Inr r"
    show "if included fl dt st then \<exists>n p t. r = Selected c n (category_of st) p t
          else r = Excluded"
    proof (cases r)
      case No_content
      with r nc show ?thesis by simp
    next
      case Excluded
      with r exc show ?thesis by simp
    next
      case (Selected c' n s' p t)
      with r sel [of c' n s' p t] show ?thesis by auto
    qed
  qed
  have second: "\<not> included fl dt st \<longrightarrow>
            fst (process_document env fl out i doc s) = fst s
            \<and> fs (snd (process_document env fl out i doc s)) = fs (snd s)"
  proof
    assume ni: "\<not> included fl dt st"
    then have "\<And>c n s p t. prepare env fl i doc \<noteq> Inr (Selected c n s p t)"
      using sel by blast
    then show "fst (process_document env fl out i doc s) = fst s
            \<and> fs (snd (process_document env fl out i doc s)) = fs (snd s)"
      by (rule process_document_counts_unchanged)
  qed
  have third: "let s0 = process_all env fl out 0 pre (initial_counts, w1);
                 mk = (if organize_by_type fl
                       then makedirs env (path_join out k) (fs (snd s0))
                       else (True, fs (snd s0)));
                 path = destination_path env fl out i n k p t;
                 r = process_document env fl out i doc s0
             in (\<forall>d img. fst mk \<and> b64decode_val env c = Inr d \<and> image_open env d = Some img
                      \<and> fst (image_save env img path (write_format t) (snd mk)) \<longrightarrow>
                    (\<exists>c1 c2. dict_incr (fst s0) (PStr k) = Inr c1
                       \<and> dict_incr c1 (PStr ''total'') = Inr c2
                       \<and> c2 \<noteq> fst s0
                       \<and> r = (c2, log (Debug_saved k path)
                                    ((snd s0)\<lparr>fs := snd (image_save env img path (write_format t)
                                                         (snd mk))\<rparr>))))
                \<and> (\<not> (fst mk \<and> (\<exists>d img. b64decode_val env c = Inr d
                             \<and> image_open env d = Some img
                             \<and> fst (image_save env img path (write_format t) (snd mk)))) \<longrightarrow>
                     fst r = fst s0)"
    if p: "prepare env fl i doc = Inr (Selected c n (PStr k) p t)" for n k p t
  proof -
    obtain cs w2 where s0: "process_all env fl out 0 pre (initial_counts, w1) = (cs, w2)"
      by (cases "process_all env fl out 0 pre (initial_counts, w1)")
    have inv: "counts_inv cs"
      using process_all_inv [of "(initial_counts, w1)" env fl out 0 pre] s0
      by (simp add: counts_inv_initial)
    define mk where "mk = (if organize_by_type fl
                       then makedirs env (path_join out k) (fs w2)
                       else (True, fs w2))"
    have a: "\<exists>c1 c2. dict_incr cs (PStr k) = Inr c1
                       \<and> dict_incr c1 (PStr ''total'') = Inr c2
                       \<and> c2 \<noteq> cs
                       \<and> process_document env fl out i doc (cs, w2)
                           = (c2, log (Debug_saved k (destination_path env fl out i n k p t))
                                    (w2\<lparr>fs := snd (image_save env img
                                                     (destination_path env fl out i n k p t)
                                                     (write_format t) (snd mk))\<rparr>))"
      if "fst mk" "b64decode_val env c = Inr d" "image_open env d = Some img"
        "fst (image_save env img (destination_path env fl out i n k p t) (write_format t) (snd mk))"
      for d img
      by (rule process_document_saved [OF inv p mk_def that])
    have b: "fst (process_document env fl out i doc (cs, w2)) = cs"
      if "\<not> (fst mk \<and> (\<exists>d img. b64decode_val env c = Inr d
                             \<and> image_open env d = Some img
                             \<and> fst (image_save env img (destination_path env fl out i n k p t)
                                      (write_format t) (snd mk))))"
      by (rule process_document_not_saved [OF p mk_def that])
    show ?thesis
      unfolding Let_def s0 fst_conv snd_conv mk_def [symmetric]
      using a b by blast
  qed
  from first second third show ?thesis by blast
qed

theorem inclusion_decision_witness:
  "\<not> included default_flags (PStr ''image'') (PStr ''page_image'')
   \<and> fst (process_document sim_env default_flags ''out'' 0 (scenario_record ''iVBORw0KGgo='')
            (initial_counts, w0)) = initial_counts
   \<and> included page_flags (PStr ''image'') (PStr ''page_image'')
   \<and> (\<exists>n p t. prepare sim_env page_flags 0 (scenario_record ''iVBORw0KGgo='')
         = Inr (Selected (PStr ''iVBORw0KGgo='') n (category_of (PStr ''page_image'')) p t))
   \<and> fst (process_document sim_env page_flags ''out'' 0 (scenario_record ''iVBORw0KGgo='')
            (initial_counts, w0)) \<noteq> initial_counts"
proof -
  have h3: "dict_get (PDict [(''content'', PStr ''iVBORw0KGgo=''),
                 (''source_metadata'', PDict [(''source_id'', PStr ''a/b/report.pdf'')]),
                 (''content_metadata'', PDict [(''subtype'', PStr ''page_image''),
                                              (''page_number'', PInt 2)]),
                 (''image_metadata'', PDict [(''image_type'', PStr ''png'')])]) ''content'' PNone
            = Inr (PStr ''iVBORw0KGgo='')"
    by simp
  have h4: "truthy (PStr ''iVBORw0KGgo='')" by simp
  have h5: "dict_get (PDict [(''content'', PStr ''iVBORw0KGgo=''),
                 (''source_metadata'', PDict [(''source_id'', PStr ''a/b/report.pdf'')]),
                 (''content_metadata'', PDict [(''subtype'', PStr ''page_image''),
                                              (''page_number'', PInt 2)]),
                 (''image_metadata'', PDict [(''image_type'', PStr ''png'')])])
              ''content_metadata'' (PDict [])
            = Inr (PDict [(''subtype'', PStr ''page_image''), (''page_number'', PInt 2)])"
    by simp
  have h6: "dict_get (PDict [(''subtype'', PStr ''page_image''), (''page_number'', PInt 2)])
              ''subtype'' (PStr ''image'') = Inr (PStr ''page_image'')"
    by simp
  note inst = inclusion_decision [OF scenario_fields(1) scenario_fields(2) h3 h4 h5 h6]
  have no: "\<not> included default_flags (PStr ''image'') (PStr ''page_image'')"
    by (simp add: included_def default_flags_def)
  have yes: "included page_flags (PStr ''image'') (PStr ''page_image'')"
    by (simp add: included_def default_flags_def page_flags_def)
  from inst [where env = sim_env and fl = default_flags and i = 0 and out = "''out''"
        and s = "(initial_counts, w0)", THEN conjunct2, THEN conjunct1] no
  have a: "fst (process_document sim_env default_flags ''out'' 0 (scenario_record ''iVBORw0KGgo='')
            (initial_counts, w0)) = initial_counts"
    by simp
  from inst [where env = sim_env and fl = page_flags and i = 0 and out = "''out''"
        and s = "(initial_counts, w0)", THEN conjunct1] yes prepare_scenario
  have b: "\<exists>n p t. prepare sim_env page_flags 0 (scenario_record ''iVBORw0KGgo='')
         = Inr (Selected (PStr ''iVBORw0KGgo='') n (category_of (PStr ''page_image'')) p t)"
    by simp
  note saved = inst [where env = sim_env and fl = page_flags and i = 0 and out = "''out''"
        and s = "(initial_counts, w0)" and pre = "[]" and ?w1.0 = w0,
        THEN conjunct2, THEN conjunct2, rule_format, OF prepare_scenario,
        unfolded Let_def, THEN conjunct1, rule_format,
        where d = "map (\<lambda>c. of_nat (of_char c)) ''iVBORw0KGgo=''"
          and img = "map (\<lambda>c. of_nat (of_char c)) ''iVBORw0KGgo=''"]
  have ok: "fst (if organize_by_type page_flags
             then makedirs sim_env (path_join ''out'' ''page_image'')
                    (fs (snd (process_all sim_env page_flags ''out'' 0 [] (initial_counts, w0))))
             else (True, fs (snd (process_all sim_env page_flags ''out'' 0 [] (initial_counts, w0)))))
          \<and> b64decode_val sim_env (PStr ''iVBORw0KGgo='')
              = Inr (map (\<lambda>c. of_nat (of_char c)) ''iVBORw0KGgo='')
          \<and> image_open sim_env (map (\<lambda>c. of_nat (of_char c)) ''iVBORw0KGgo='')
              = Some (map (\<lambda>c. of_nat (of_char c)) ''iVBORw0KGgo='')
          \<and> fst (image_save sim_env (map (\<lambda>c. of_nat (of_char c)) ''iVBORw0KGgo='')
                   (destination_path sim_env page_flags ''out'' 0 ''report.pdf'' ''page_image''
                      (PInt 2) ''png'')
                   (write_format ''png'')
                   (snd (if organize_by_type page_flags
             then makedirs sim_env (path_join ''out'' ''page_image'')
                    (fs (snd (process_all sim_env page_flags ''out'' 0 [] (initial_counts, w0))))
             else (True, fs (snd (process_all sim_env page_flags ''out'' 0 []
                                    (initial_counts, w0)))))))"
    by (simp add: sim_defs write_format_def str_upper_def upper_char_def path_join_def)
  from saved [OF ok]
  have c: "fst (process_document sim_env page_flags ''out'' 0 (scenario_record ''iVBORw0KGgo='')
            (initial_counts, w0)) \<noteq> initial_counts"
    by (auto simp del: dict_incr.simps)
  from no a yes b c show ?thesis by blast
qed

text \<open>
  The claim as stated says that every record that meets the inclusion rule is saved. A
  record that meets it and whose content does not decode is not: nothing is written and
  nothing is counted.
\<close>

theorem included_record_not_saved_counterexample:
  "truthy (PStr ''abc'')
   \<and> included page_flags (PStr ''image'') (PStr ''page_image'')
   \<and> save_images_to_disk sim_env (PList [scenario_record ''abc'']) ''out'' page_flags w0 =
       (Inr [(''chart'', 0), (''table'', 0), (''infographic'', 0),
             (''page_image'', 0), (''image'', 0), (''total'', 0)],
        \<lparr>logs = [Error_save ''page_image'' ''report.pdf'' DecodeError, Info_none],
         fs = [Makedirs ''out'' True, Makedirs ''out/page_image'' True]\<rparr>)"
proof -
  have a: "truthy (PStr ''abc'')" by simp
  have b: "included page_flags (PStr ''image'') (PStr ''page_image'')"
    by (simp add: included_def page_flags_def default_flags_def)
  from a b run_invalid_base64 show ?thesis by simp
qed

text \<open>
  C9. A record whose metadata has no content, or an empty one, is skipped: the counters,
  the file system and the log are all left as they were, so nothing is written, nothing is
  counted and nothing is reported as an error.
\<close>

theorem no_content_skipped:
  assumes "dict_get doc ''metadata'' (PDict []) = Inr md"
    and "dict_get md ''content'' PNone = Inr c" and "\<not> truthy c"
  shows "process_document env fl out i doc s = s"
proof -
  from assms(1) obtain d where d: "doc = PDict d" by (cases doc) auto
  have "prepare env fl i doc = Inr No_content"
    using assms by (simp add: prepare_def ebind_def d)
  then show ?thesis by (simp add: process_document_def)
qed

theorem no_content_skipped_witness:
  "process_document sim_env page_flags ''out'' 0 (scenario_record []) (initial_counts, w0)
     = (initial_counts, w0)"
proof -
  have h2: "dict_get (PDict [(''content'', PStr []),
                 (''source_metadata'', PDict [(''source_id'', PStr ''a/b/report.pdf'')]),
                 (''content_metadata'', PDict [(''subtype'', PStr ''page_image''),
                                              (''page_number'', PInt 2)]),
                 (''image_metadata'', PDict [(''image_type'', PStr ''png'')])]) ''content'' PNone
            = Inr (PStr [])"
    by simp
  have h3: "\<not> truthy (PStr [])" by simp
  show ?thesis by (rule no_content_skipped [OF scenario_fields(1) h2 h3])
qed

text \<open>
  C10. In any call, whenever the record at some position passes the inclusion decision, its
  effective category is one of the five category keys, and both increments, on the
  counters as the records before it left them, find their key.
\<close>

theorem category_key_present:
  assumes "prepare env fl (length pre) doc = Inr (Selected c n s p t)"
  shows "s \<in> PStr ` set categories
       \<and> (\<exists>c1 c2. dict_incr (fst (process_all env fl out 0 pre (initial_counts, w))) s = Inr c1
                  \<and> dict_incr c1 (PStr ''total'') = Inr c2)"
proof -
  from prepare_Selected [OF assms] obtain k where k: "k \<in> set categories" "s = PStr k" by auto
  have "counts_inv (fst (process_all env fl out 0 pre (initial_counts, w)))"
    by (rule process_all_inv) (simp add: counts_inv_initial)
  from counts_inv_incr [OF this k(1)] k show ?thesis by blast
qed

theorem category_key_present_witness:
  "PStr ''page_image'' \<in> PStr ` set categories
   \<and> (\<exists>c1 c2. dict_incr initial_counts (PStr ''page_image'') = Inr c1
              \<and> dict_incr c1 (PStr ''total'') = Inr c2)"
proof -
  have h: "prepare sim_env page_flags (length ([] :: pyval list)) (scenario_record ''iVBORw0KGgo='')
     = Inr (Selected (PStr ''iVBORw0KGgo='') ''report.pdf'' (PStr ''page_image'') (PInt 2) ''png'')"
    using prepare_scenario by simp
  from category_key_present [OF h, where out = "''out''" and w = w0] show ?thesis
    by (simp del: dict_incr.simps)
qed

text \<open>
  C8. The two cases without input: the response adapter given an envelope whose
  \<^verbatim>\<open>"data"\<close> is absent or empty, and the exporter given an empty list. Each returns the
  empty dictionary and adds one warning to the log; the file system is not touched and no
  record is processed.
\<close>

theorem empty_input_returns_empty:
  "((map_of response ''data'' = None \<or> (\<exists>v. map_of response ''data'' = Some v \<and> \<not> truthy v)) \<longrightarrow>
      save_images_from_response env response out fl w
        = (Inr [], w\<lparr>logs := logs w @ [Warning ''No data found in response'']\<rparr>))
   \<and> save_images_to_disk env (PList []) out fl w
        = (Inr [], w\<lparr>logs := logs w @ [Warning ''No response data provided'']\<rparr>)"
  by (auto simp: save_images_from_response_def save_images_to_disk_def log_def)

theorem empty_input_returns_empty_witness:
  "save_images_from_response sim_env [(''data'', PList [])] ''out'' default_flags w0
     = (Inr [], \<lparr>logs = [Warning ''No data found in response''], fs = []\<rparr>)
   \<and> save_images_from_response sim_env [(''status'', PStr ''ok'')] ''out'' default_flags w0
     = (Inr [], \<lparr>logs = [Warning ''No data found in response''], fs = []\<rparr>)"
  using empty_input_returns_empty [of "[(''data'', PList [])]" sim_env "''out''" default_flags w0]
    empty_input_returns_empty [of "[(''status'', PStr ''ok'')]" sim_env "''out''" default_flags w0]
  by (simp add: w0_def)



text \<open>
  C5, as amended. A record whose content is a string that base64 decoding rejects leaves
  the six counters as they were; the loop goes on with the next record and the next index;
  and a call over a list that holds such a record raises nothing and returns a dictionary
  when the output directory can be created.
\<close>

theorem invalid_base64_record:
  assumes "dict_get doc ''metadata'' (PDict []) = Inr md"
    and "dict_get md ''content'' PNone = Inr (PStr content)"
    and "b64decode env content = None"
  shows "fst (process_document env fl out i doc (cs, w)) = cs
       \<and> process_all env fl out i (doc # rest) (cs, w)
           = process_all env fl out (Suc i) rest
               (cs, snd (process_document env fl out i doc (cs, w)))
       \<and> (fst (makedirs env out (fs wi)) \<longrightarrow>
            (\<exists>counts. fst (save_images_to_disk env (PList (pre @ doc # rest)) out fl wi)
                        = Inr counts))"
proof -
  have a: "fst (process_document env fl out i doc (cs, w)) = cs"
    by (rule process_document_decode_failed [OF assms])
  have b: "process_all env fl out i (doc # rest) (cs, w)
           = process_all env fl out (Suc i) rest
               (cs, snd (process_document env fl out i doc (cs, w)))"
    using a by (cases "process_document env fl out i doc (cs, w)") simp
  have c: "fst (makedirs env out (fs wi)) \<longrightarrow>
            (\<exists>counts. fst (save_images_to_disk env (PList (pre @ doc # rest)) out fl wi)
                        = Inr counts)"
  proof
    assume "fst (makedirs env out (fs wi))"
    from exporter_returns [OF this, of "pre @ doc # rest" fl] show
      "\<exists>counts. fst (save_images_to_disk env (PList (pre @ doc # rest)) out fl wi) = Inr counts"
      by auto
  qed
  from a b c show ?thesis by blast
qed

theorem invalid_base64_record_witness:
  "fst (process_document sim_env page_flags ''out'' 0 (scenario_record ''abc'') (initial_counts, w0))
     = initial_counts
   \<and> (\<exists>counts. fst (save_images_to_disk sim_env (PList ([] @ scenario_record ''abc'' # []))
                      ''out'' page_flags w0) = Inr counts)"
proof -
  have h2: "dict_get (PDict [(''content'', PStr ''abc''),
                 (''source_metadata'', PDict [(''source_id'', PStr ''a/b/report.pdf'')]),
                 (''content_metadata'', PDict [(''subtype'', PStr ''page_image''),
                                              (''page_number'', PInt 2)]),
                 (''image_metadata'', PDict [(''image_type'', PStr ''png'')])]) ''content'' PNone
            = Inr (PStr ''abc'')"
    by simp
  have h3: "b64decode sim_env ''abc'' = None"
    by (simp add: sim_env_def b64_char_def)
  have h4: "fst (makedirs sim_env ''out'' (fs w0))"
    by (simp add: sim_env_def)
  from invalid_base64_record [OF scenario_fields(1) h2 h3, where fl = page_flags
      and out = "''out''" and i = 0 and cs = initial_counts and w = w0 and wi = w0
      and pre = "[]" and rest = "[]"] h4
  show ?thesis by blast
qed

text \<open>
  Without that condition the call can raise although the record is there:
  \<^verbatim>\<open>os.makedirs(output_directory)\<close> on line 91 comes before the loop and outside its
  handlers.
\<close>

theorem invalid_base64_call_raises_counterexample:
  "b64decode sim_env ''abc'' = None
   \<and> fst (save_images_to_disk sim_env (PList [scenario_record ''abc'']) [] page_flags w0)
       = Inl OSError"
proof -
  have a: "b64decode sim_env ''abc'' = None"
    by (simp add: sim_env_def b64_char_def)
  from a run_invalid_base64_empty_directory show ?thesis by simp
qed




text \<open>
  C6, as amended. For the record of the scenario, with page images on and one directory
  for each type, when the two directories can be created and the content decodes, opens and
  is written, the call writes one file, at
  \<open>output_directory/page_image/N_p2_0.png\<close> where \<open>N\<close> is what
  \<^verbatim>\<open>get_valid_filename\<close> returns for \<open>report.pdf\<close>, the last component of the source
  identifier with its extension; the file system is left as the two directory creations and
  that one write leave it; and the counters returned are one for \<open>page_image\<close>, one for
  \<open>total\<close> and zero elsewhere.
\<close>

theorem scenario_file_and_counts:
  assumes "save_page_images fl" and "organize_by_type fl"
    and "get_valid_filename env ''report.pdf'' = Some name"
    and "content \<noteq> []" and "b64decode env content = Some data"
    and "image_open env data = Some img"
    and "makedirs env out (fs w) = (True, f1)"
    and "makedirs env (path_join out ''page_image'') f1 = (True, f2)"
    and "image_save env img (path_join (path_join out ''page_image'') (name @ ''_p2_0.png''))
           ''PNG'' f2 = (True, f3)"
  shows "fst (save_images_to_disk env (PList [scenario_record content]) out fl w)
           = Inr [(''chart'', 0), (''table'', 0), (''infographic'', 0),
                  (''page_image'', 1), (''image'', 0), (''total'', 1)]
       \<and> fs (snd (save_images_to_disk env (PList [scenario_record content]) out fl w)) = f3"
proof -
  have up: "str_upper ''png'' = ''PNG''"
    by (simp add: str_upper_def upper_char_def)
  have ts: "try_save env (PStr content) name (PStr ''page_image'') ''png''
              (path_join (path_join out ''page_image'') (name @ ''_p2_0.png''))
              (initial_counts, w\<lparr>fs := f2\<rparr>)
            = ([(''chart'', 0), (''table'', 0), (''infographic'', 0),
                (''page_image'', 1), (''image'', 0), (''total'', 1)],
               log (Debug_saved ''page_image''
                      (path_join (path_join out ''page_image'') (name @ ''_p2_0.png'')))
                 (w\<lparr>fs := f3\<rparr>))"
    using assms(5,6,9) by (simp add: try_save_def up initial_counts_def)
  have si: "save_item env fl out 0 (PStr content) name (PStr ''page_image'') (PInt 2) ''png''
              (initial_counts, w\<lparr>fs := f1\<rparr>)
            = (None, [(''chart'', 0), (''table'', 0), (''infographic'', 0),
                (''page_image'', 1), (''image'', 0), (''total'', 1)],
               log (Debug_saved ''page_image''
                      (path_join (path_join out ''page_image'') (name @ ''_p2_0.png'')))
                 (w\<lparr>fs := f3\<rparr>))"
    using assms(2,8) ts
    by (simp add: save_item_def string_of_int_2 string_of_nat_0)
  have pd: "process_document env fl out 0 (scenario_record content) (initial_counts, w\<lparr>fs := f1\<rparr>)
            = ([(''chart'', 0), (''table'', 0), (''infographic'', 0),
                (''page_image'', 1), (''image'', 0), (''total'', 1)],
               log (Debug_saved ''page_image''
                      (path_join (path_join out ''page_image'') (name @ ''_p2_0.png'')))
                 (w\<lparr>fs := f3\<rparr>))"
    using prepare_scenario_general [OF assms(1,3,4)] si
    by (simp add: process_document_def)
  show ?thesis
    using assms(7) pd
    by (simp add: save_images_to_disk_def log_summary_def log_def)
qed

theorem scenario_file_and_counts_witness:
  "fst (save_images_to_disk sim_env (PList [scenario_record ''iVBORw0KGgo='']) ''out'' page_flags w0)
     = Inr [(''chart'', 0), (''table'', 0), (''infographic'', 0),
            (''page_image'', 1), (''image'', 0), (''total'', 1)]
   \<and> fs (snd (save_images_to_disk sim_env (PList [scenario_record ''iVBORw0KGgo=''])
               ''out'' page_flags w0))
     = [Makedirs ''out'' True, Makedirs ''out/page_image'' True,
        Save_image ''out/page_image/report.pdf_p2_0.png'' ''PNG'' True]"
proof -
  have h1: "save_page_images page_flags" and h2: "organize_by_type page_flags"
    by (simp_all add: page_flags_def default_flags_def)
  have h3: "get_valid_filename sim_env ''report.pdf'' = Some ''report.pdf''"
    by (simp add: sim_env_def sanitize_def safe_char_def)
  have h4: "''iVBORw0KGgo='' \<noteq> []" by simp
  have h5: "b64decode sim_env ''iVBORw0KGgo=''
              = Some (map (\<lambda>c. of_nat (of_char c)) ''iVBORw0KGgo='')"
    by (simp add: sim_env_def b64_char_def)
  have h6: "image_open sim_env (map (\<lambda>c. of_nat (of_char c)) ''iVBORw0KGgo='')
              = Some (map (\<lambda>c. of_nat (of_char c)) ''iVBORw0KGgo='')"
    by (simp add: sim_env_def)
  have h7: "makedirs sim_env ''out'' (fs w0) = (True, [Makedirs ''out'' True])"
    by (simp add: sim_env_def w0_def)
  have h8: "makedirs sim_env (path_join ''out'' ''page_image'') [Makedirs ''out'' True]
              = (True, [Makedirs ''out'' True, Makedirs ''out/page_image'' True])"
    by (simp add: sim_env_def path_join_def)
  have h9: "image_save sim_env (map (\<lambda>c. of_nat (of_char c)) ''iVBORw0KGgo='')
              (path_join (path_join ''out'' ''page_image'') (''report.pdf'' @ ''_p2_0.png''))
              ''PNG'' [Makedirs ''out'' True, Makedirs ''out/page_image'' True]
            = (True, [Makedirs ''out'' True, Makedirs ''out/page_image'' True,
                      Save_image ''out/page_image/report.pdf_p2_0.png'' ''PNG'' True])"
    by (simp add: sim_env_def path_join_def)
  from scenario_file_and_counts [OF h1 h2 h3 h4 h5 h6 h7 h8 h9] show ?thesis .
qed

text \<open>
  The scenario as the specification has it expects the name \<open>report_p2_0.png\<close>. The
  code hands \<open>report.pdf\<close> to the sanitiser and removes no extension itself; with a
  sanitiser that keeps the dot and the letters, the file is \<open>report.pdf_p2_0.png\<close>.
\<close>

theorem scenario_path_counterexample:
  "fs (snd (save_images_to_disk sim_env (PList [scenario_record ''iVBORw0KGgo=''])
              ''out'' page_flags w0))
     = [Makedirs ''out'' True, Makedirs ''out/page_image'' True,
        Save_image ''out/page_image/report.pdf_p2_0.png'' ''PNG'' True]
   \<and> Save_image ''out/page_image/report_p2_0.png'' ''PNG'' True
       \<notin> set (fs (snd (save_images_to_disk sim_env (PList [scenario_record ''iVBORw0KGgo=''])
                         ''out'' page_flags w0)))"
  by (simp add: run_scenario)

text \<open>
  C7. The batch adapter calls the exporter on the flattening of its input: the elements of
  each sublist in order, then the next element's. The exporter processes the record at
  position \<open>k\<close> of that list with index \<open>k\<close>, after the records before it and before
  the records after it. Two inputs with the same flattening give the same result, whatever
  their grouping.
\<close>

theorem batch_adapter_flattens:
  "save_images_from_ingestor_results env results out fl w
     = save_images_to_disk env (PList (flattened results)) out fl w
   \<and> (flattened results = pre @ doc # post \<longrightarrow>
        process_all env fl out 0 (flattened results) s
          = process_all env fl out (Suc (length pre)) post
              (process_document env fl out (length pre) doc
                 (process_all env fl out 0 pre s)))
   \<and> (flattened results' = flattened results \<longrightarrow>
        save_images_from_ingestor_results env results' out fl w
          = save_images_from_ingestor_results env results out fl w)"
  by (simp add: save_images_from_ingestor_results_def flatten_results_flattened
      process_all_append)

theorem batch_adapter_flattens_witness:
  "fs (snd (save_images_from_ingestor_results sim_env
              [PList [record_a, record_b], record_c] ''out'' default_flags w0))
     = [Makedirs ''out'' True,
        Makedirs ''out/chart'' True,
        Save_image ''out/chart/one.pdf_p1_0.png'' ''PNG'' True,
        Makedirs ''out/table'' True,
        Save_image ''out/table/one.pdf_p2_1.png'' ''PNG'' True,
        Makedirs ''out/chart'' True,
        Save_image ''out/chart/two.pdf_p1_2.png'' ''PNG'' True]
   \<and> save_images_from_ingestor_results sim_env
        [record_a, PList [record_b, record_c]] ''out'' default_flags w0
     = save_images_from_ingestor_results sim_env
        [PList [record_a, record_b], record_c] ''out'' default_flags w0"
proof -
  have f1: "flattened [PList [record_a, record_b], record_c] = [record_a, record_b, record_c]"
    by (simp add: record_c_def image_record_def)
  have f2: "flattened [record_a, PList [record_b, record_c]] = [record_a, record_b, record_c]"
    by (simp add: record_a_def image_record_def)
  note inst = batch_adapter_flattens [of sim_env "[PList [record_a, record_b], record_c]"
         "''out''" default_flags w0 "[]" record_a "[record_b, record_c]"
         "(initial_counts, w0)" "[record_a, PList [record_b, record_c]]"]
  from inst have a: "save_images_from_ingestor_results sim_env
        [PList [record_a, record_b], record_c] ''out'' default_flags w0
      = save_images_to_disk sim_env (PList [record_a, record_b, record_c]) ''out'' default_flags w0"
    unfolding f1 by blast
  from inst have b: "save_images_from_ingestor_results sim_env
        [record_a, PList [record_b, record_c]] ''out'' default_flags w0
     = save_images_from_ingestor_results sim_env
        [PList [record_a, record_b], record_c] ''out'' default_flags w0"
    unfolding f1 f2 by blast
  from a b show ?thesis by (simp add: run_three_records)
qed

text \<open>
  C3. The run of the exporter on a record whose image type is \<^verbatim>\<open>"jpeg"\<close>. The path is
  built on line 143 from the image type, so it ends in \<open>.jpeg\<close>; line 156 maps
  \<^verbatim>\<open>"jpeg"\<close> to \<^verbatim>\<open>"jpg"\<close> only for the format name, which line 157 passes in
  upper case as \<open>JPG\<close>. The imaging library registers that format as \<open>JPEG\<close>, so the
  write is refused and nothing is counted.
\<close>

theorem jpeg_extension_and_format:
  "save_images_to_disk sim_env (PList [jpeg_record]) ''out'' default_flags w0 =
   (Inr [(''chart'', 0), (''table'', 0), (''infographic'', 0),
         (''page_image'', 0), (''image'', 0), (''total'', 0)],
    \<lparr>logs = [Error_save ''chart'' ''report.pdf'' WriteError, Info_none],
     fs = [Makedirs ''out'' True, Makedirs ''out/chart'' True,
           Save_image ''out/chart/report.pdf_p0_0.jpeg'' ''JPG'' False]\<rparr>)"
  by (simp add: model_defs sim_defs jpeg_record_def string_of_nat_digit)

end
